theory Spec2Isabelle
  imports Complex_Main
begin

section \<open>Option-chain quoting and the iron butterfly (op_quote.py)\<close>

text \<open>
  A shallow embedding of \<^verbatim>\<open>src/opstrat/op_quote.py\<close>. Prices and strikes are IEEE 754
  double-precision numbers in the source (\<^verbatim>\<open>numpy.float64\<close> columns and scalars); they are
  modelled by the type \<open>float64\<close> below, with its infinities, NaN and rounding to nearest.
  The market-data provider (yfinance), the holiday calendar (holidays),
  the clock and \<^verbatim>\<open>strptime\<close> are parameters; the external plotting routine is
  represented by the arguments it is called with. Console output is not modelled, apart
  from the fault that formatting a missing premium raises.
\<close>

subsection \<open>Errors\<close>

text \<open>
  One constructor per way the code can raise:
  the \<^verbatim>\<open>ValueError\<close> raised for an unavailable expiration (its message embeds the requested
  date and the provider's expirations, kept here as arguments), the \<^verbatim>\<open>ValueError\<close> of
  \<^verbatim>\<open>min()\<close> on an empty sequence, the \<^verbatim>\<open>ValueError\<close> of \<^verbatim>\<open>strptime\<close> on a malformed
  string, the \<^verbatim>\<open>OverflowError\<close> of \<^verbatim>\<open>date + timedelta\<close> beyond \<^verbatim>\<open>date.max\<close>, the
  \<^verbatim>\<open>IndexError\<close> of \<^verbatim>\<open>iloc[-1]\<close> on an empty series, and the \<^verbatim>\<open>TypeError\<close> of
  formatting \<^verbatim>\<open>None\<close> with \<^verbatim>\<open>:.2f\<close>.
\<close>

datatype error =
    ValueError_expiration string "string list"
  | ValueError_min
  | ValueError_strptime
  | OverflowError
  | IndexError
  | TypeError

subsection \<open>Double-precision numbers\<close>

text \<open>
  A double is a finite number, an infinity or NaN. A finite double is identified with the
  real number it denotes, so \<^verbatim>\<open>0.0\<close> and \<^verbatim>\<open>-0.0\<close> are one value: they are equal under
  \<^verbatim>\<open>==\<close>, have the same absolute value, the same sums and differences up to that
  identification, and \<^verbatim>\<open>Series.unique()\<close> keeps only the first of them. All NaNs are one
  value. The numbers of a table and the spot price are meant to be doubles; the arithmetic
  below rounds every result to a double and leaves a double unchanged.
\<close>

datatype float64 = Finite real | PInf | NInf | NaN

text \<open>
  \<open>pow2 e\<close> is \<open>2\<^sup>e\<close>, and \<open>exponent x\<close> is the binary exponent of a positive \<open>x\<close>: the
  integer \<open>k\<close> with \<open>2\<^sup>k \<le> x < 2\<^sup>k\<^sup>+\<^sup>1\<close>, found by halving or doubling.
\<close>

definition pow2 :: "int \<Rightarrow> real" where
  "pow2 e = (if 0 \<le> e then 2 ^ nat e else 1 / 2 ^ nat (- e))"

function exponent :: "real \<Rightarrow> int" where
  "exponent x =
     (if x \<le> 0 then 0
      else if 2 \<le> x then exponent (x / 2) + 1
      else if x < 1 then exponent (2 * x) - 1
      else 0)"
  by pat_completeness auto
termination
proof (relation "measure (\<lambda>x. nat (2 * \<lceil>1 / x\<rceil> + \<lfloor>x\<rfloor>))")
  show "wf (measure (\<lambda>x::real. nat (2 * \<lceil>1 / x\<rceil> + \<lfloor>x\<rfloor>)))" by simp
next
  fix x :: real
  assume a: "\<not> x \<le> 0" "2 \<le> x"
  have c1: "\<lceil>1 / x\<rceil> = 1" using a by (simp add: ceiling_eq_iff)
  have c2: "\<lceil>1 / (x / 2)\<rceil> = 1" using a by (simp add: ceiling_eq_iff)
  have f: "\<lfloor>x / 2\<rfloor> < \<lfloor>x\<rfloor>" using a by linarith
  have p: "0 < \<lfloor>x\<rfloor>" using a by simp
  have "2 * \<lceil>1 / (x / 2)\<rceil> + \<lfloor>x / 2\<rfloor> < 2 * \<lceil>1 / x\<rceil> + \<lfloor>x\<rfloor>"
    using f by (simp only: c1 c2)
  moreover have "0 < 2 * \<lceil>1 / x\<rceil> + \<lfloor>x\<rfloor>" using p c1 by linarith
  ultimately show "(x / 2, x) \<in> measure (\<lambda>x. nat (2 * \<lceil>1 / x\<rceil> + \<lfloor>x\<rfloor>))"
    by (simp only: in_measure zless_nat_conj)
next
  fix x :: real
  assume a: "\<not> x \<le> 0" "\<not> 2 \<le> x" "x < 1"
  have half: "y / 2 \<le> c - 1" if "2 \<le> c" "y \<le> c" for c y :: real
    using that by linarith
  have f0: "\<lfloor>x\<rfloor> = 0" using a by (simp add: floor_eq_iff)
  have f1: "\<lfloor>2 * x\<rfloor> \<le> 1" using a by (simp add: floor_le_iff)
  have y: "1 < 1 / x" using a by simp
  then have g: "2 \<le> \<lceil>1 / x\<rceil>" by linarith
  then have "(2::real) \<le> of_int \<lceil>1 / x\<rceil>" by linarith
  moreover have "1 / x \<le> of_int \<lceil>1 / x\<rceil>" by (rule le_of_int_ceiling)
  ultimately have "(1 / x) / 2 \<le> of_int \<lceil>1 / x\<rceil> - 1" by (rule half)
  then have "(1 / x) / 2 \<le> of_int (\<lceil>1 / x\<rceil> - 1)" by simp
  then have "\<lceil>(1 / x) / 2\<rceil> \<le> \<lceil>1 / x\<rceil> - 1" by (simp only: ceiling_le_iff)
  moreover have eq: "1 / (2 * x) = (1 / x) / 2" by simp
  ultimately have c: "\<lceil>1 / (2 * x)\<rceil> \<le> \<lceil>1 / x\<rceil> - 1" by (simp only: eq)
  have "2 * \<lceil>1 / (2 * x)\<rceil> + \<lfloor>2 * x\<rfloor> < 2 * \<lceil>1 / x\<rceil> + \<lfloor>x\<rfloor>"
    using c f0 f1 by linarith
  moreover have "0 < 2 * \<lceil>1 / x\<rceil> + \<lfloor>x\<rfloor>" using g f0 by linarith
  ultimately show "(2 * x, x) \<in> measure (\<lambda>x. nat (2 * \<lceil>1 / x\<rceil> + \<lfloor>x\<rfloor>))"
    by (simp only: in_measure zless_nat_conj)
qed

declare exponent.simps [simp del]

text \<open>Rounding to the nearest integer, a tie going to the even neighbour.\<close>

definition round_half_even :: "real \<Rightarrow> int" where
  "round_half_even y =
     (let f = \<lfloor>y\<rfloor>; r = y - of_int f
      in if r < 1 / 2 then f
         else if 1 / 2 < r then f + 1
         else if even f then f else f + 1)"

text \<open>
  The double nearest to a real number (round to nearest, ties to even), as every IEEE
  operation delivers it. The significand has 53 bits, so the spacing of doubles around \<open>x\<close>
  is \<open>2\<^sup>e\<close> with \<open>e = exponent \<bar>x\<bar> - 52\<close>, and never less than \<open>2\<^sup>-\<^sup>1\<^sup>0\<^sup>7\<^sup>4\<close>, the
  spacing of the subnormal numbers. A result that rounds to \<open>2\<^sup>1\<^sup>0\<^sup>2\<^sup>4\<close> or more in magnitude
  overflows to an infinity.
\<close>

definition fround :: "real \<Rightarrow> float64" where
  "fround x =
     (if x = 0 then Finite 0
      else
        let e = max (exponent \<bar>x\<bar> - 52) (- 1074);
            m = round_half_even (\<bar>x\<bar> / pow2 e);
            y = of_int m * pow2 e
        in if 2 ^ 1024 \<le> y then (if x < 0 then NInf else PInf)
           else Finite (if x < 0 then - y else y))"

text \<open>
  Addition, subtraction, absolute value and the comparisons \<^verbatim>\<open><\<close>, \<^verbatim>\<open><=\<close> and \<^verbatim>\<open>==\<close> of
  doubles. NaN propagates through arithmetic and makes every comparison false; numpy
  signals overflow and invalid operations by a warning, not an exception.
\<close>

fun fadd :: "float64 \<Rightarrow> float64 \<Rightarrow> float64" where
  "fadd NaN b = NaN"
| "fadd a NaN = NaN"
| "fadd (Finite x) (Finite y) = fround (x + y)"
| "fadd PInf NInf = NaN"
| "fadd NInf PInf = NaN"
| "fadd PInf b = PInf"
| "fadd NInf b = NInf"
| "fadd (Finite x) b = b"

fun fsub :: "float64 \<Rightarrow> float64 \<Rightarrow> float64" where
  "fsub NaN b = NaN"
| "fsub a NaN = NaN"
| "fsub (Finite x) (Finite y) = fround (x - y)"
| "fsub PInf PInf = NaN"
| "fsub NInf NInf = NaN"
| "fsub PInf b = PInf"
| "fsub NInf b = NInf"
| "fsub (Finite x) PInf = NInf"
| "fsub (Finite x) NInf = PInf"

fun fabs :: "float64 \<Rightarrow> float64" where
  "fabs (Finite x) = Finite \<bar>x\<bar>"
| "fabs PInf = PInf"
| "fabs NInf = PInf"
| "fabs NaN = NaN"

fun flt :: "float64 \<Rightarrow> float64 \<Rightarrow> bool" where
  "flt NaN b = False"
| "flt a NaN = False"
| "flt (Finite x) (Finite y) = (x < y)"
| "flt a NInf = False"
| "flt PInf b = False"
| "flt NInf b = True"
| "flt (Finite x) PInf = True"

fun fle :: "float64 \<Rightarrow> float64 \<Rightarrow> bool" where
  "fle NaN b = False"
| "fle a NaN = False"
| "fle (Finite x) (Finite y) = (x \<le> y)"
| "fle NInf b = True"
| "fle a PInf = True"
| "fle a NInf = False"
| "fle PInf b = False"

fun feq :: "float64 \<Rightarrow> float64 \<Rightarrow> bool" where
  "feq NaN b = False"
| "feq a NaN = False"
| "feq a b = (a = b)"

subsection \<open>Calendar dates\<close>

text \<open>
  A \<^verbatim>\<open>datetime.date\<close> is identified with its proleptic Gregorian ordinal
  (\<^verbatim>\<open>date.toordinal()\<close>): 0001-01-01 is day 1, a Monday, and \<^verbatim>\<open>date.max\<close> = 9999-12-31 is
  day 3652059. \<^verbatim>\<open>weekday()\<close> is \<^verbatim>\<open>(toordinal() + 6) % 7\<close>, Monday = 0.
\<close>

type_synonym date = int

definition date_max :: date where
  "date_max = 3652059"

definition weekday :: "date \<Rightarrow> int" where
  "weekday d = (d + 6) mod 7"

text \<open>
  The \<^verbatim>\<open>while\<close> loop of \<^verbatim>\<open>get_nth_business_day\<close>. It has no bound of its own, so it is a
  partial function: \<^const>\<open>None\<close> would mean that it runs forever. Adding one day to
  \<^verbatim>\<open>date.max\<close> raises \<^verbatim>\<open>OverflowError\<close>.
\<close>

partial_function (option) nth_loop ::
  "date set \<Rightarrow> int \<Rightarrow> date \<Rightarrow> int \<Rightarrow> (error + date) option" where
  "nth_loop us_holidays n current_date business_days_count =
     (if business_days_count < n then
        (if date_max < current_date + 1 then Some (Inl OverflowError)
         else nth_loop us_holidays n (current_date + 1)
                (if weekday (current_date + 1) < 5 \<and> current_date + 1 \<notin> us_holidays
                 then business_days_count + 1 else business_days_count))
      else Some (Inr current_date))"

declare nth_loop.simps [code]

definition get_nth_business_day ::
  "(string \<Rightarrow> date set) \<Rightarrow> date \<Rightarrow> int \<Rightarrow> string \<Rightarrow> (error + date) option" where
  "get_nth_business_day CountryHoliday start_date n country =
     (let us_holidays = CountryHoliday country
      in nth_loop us_holidays n start_date 0)"

text \<open>
  Specification vocabulary: a business day is a weekday outside the holiday set, and
  \<open>business_days_between h a b\<close> counts the business days \<open>d\<close> with \<open>a < d \<le> b\<close>.
\<close>

definition business_day :: "date set \<Rightarrow> date \<Rightarrow> bool" where
  "business_day us_holidays d \<longleftrightarrow> weekday d < 5 \<and> d \<notin> us_holidays"

definition business_days_between :: "date set \<Rightarrow> date \<Rightarrow> date \<Rightarrow> int" where
  "business_days_between us_holidays a b =
     int (length (filter (business_day us_holidays) [a + 1..b]))"

subsection \<open>Tables and legs\<close>

text \<open>
  A leg is the dictionary handed to the plotter; \<open>plot_call\<close> records the keyword
  arguments of \<^verbatim>\<open>op.basic_multi.multi_plotter(spot=..., op_list=...)\<close>.
\<close>

record leg =
  op_type :: string
  strike :: float64
  tr_type :: string
  op_pr :: float64

record plot_call =
  spot :: float64
  op_list :: "leg list"

text \<open>
  A provider row carries the two columns the code reads; a chain row is a provider row
  with the derived \<^verbatim>\<open>type\<close> column. A data frame is the list of its rows, in index order.
\<close>

record quote =
  strike :: float64
  lastPrice :: float64

record option_row = quote +
  type :: string

text \<open>
  The yfinance ticker object: \<^verbatim>\<open>Ticker(t).options\<close>, \<^verbatim>\<open>Ticker(t).option_chain(date)\<close> with
  its \<^verbatim>\<open>calls\<close> and \<^verbatim>\<open>puts\<close> frames, and the \<^verbatim>\<open>Close\<close> column of
  \<^verbatim>\<open>Ticker(t).history(period="1d")\<close>.
\<close>

record provider =
  options :: "string \<Rightarrow> string list"
  option_chain :: "string \<Rightarrow> string \<Rightarrow> quote list \<times> quote list"
  history_close :: "string \<Rightarrow> float64 list"

subsection \<open>Fetching the chain\<close>

definition set_type :: "string \<Rightarrow> quote \<Rightarrow> option_row" where
  "set_type t q = \<lparr>strike = strike q, lastPrice = lastPrice q, type = t\<rparr>"

definition get_option_chain :: "provider \<Rightarrow> string \<Rightarrow> string \<Rightarrow> error + option_row list" where
  "get_option_chain yf ticker_symbol expiration_date =
     (let available_expirations = options yf ticker_symbol
      in if expiration_date \<notin> set available_expirations
         then Inl (ValueError_expiration expiration_date available_expirations)
         else (case option_chain yf ticker_symbol expiration_date of
                 (chain_calls, chain_puts) \<Rightarrow>
                   let calls = map (set_type ''call'') chain_calls;
                       puts = map (set_type ''put'') chain_puts
                   in Inr (calls @ puts)))"

subsection \<open>The at-the-money strike\<close>

text \<open>
  \<^verbatim>\<open>Series.unique()\<close> keeps the first occurrence of every value, in order of appearance;
  its hash table takes NaNs for one value, as equality on \<open>float64\<close> does.
\<close>

primrec unique_from :: "'a list \<Rightarrow> 'a list \<Rightarrow> 'a list" where
  "unique_from seen [] = []"
| "unique_from seen (x # xs) =
     (if x \<in> set seen then unique_from seen xs else x # unique_from (x # seen) xs)"

definition unique :: "'a list \<Rightarrow> 'a list" where
  "unique xs = unique_from [] xs"

text \<open>
  Python's \<^verbatim>\<open>min(iterable, key=f)\<close>: the running best is replaced only by an element whose
  key compares \<^verbatim>\<open><\<close> to the best key so far, and an empty iterable raises \<^verbatim>\<open>ValueError\<close>.
  The keys here are doubles.
\<close>

primrec min_from :: "('a \<Rightarrow> float64) \<Rightarrow> 'a \<Rightarrow> 'a list \<Rightarrow> 'a" where
  "min_from key best [] = best"
| "min_from key best (x # xs) = min_from key (if flt (key x) (key best) then x else best) xs"

definition py_min :: "('a \<Rightarrow> float64) \<Rightarrow> 'a list \<Rightarrow> error + 'a" where
  "py_min key xs =
     (case xs of [] \<Rightarrow> Inl ValueError_min | x # rest \<Rightarrow> Inr (min_from key x rest))"

definition find_atm_strike :: "option_row list \<Rightarrow> float64 \<Rightarrow> error + float64" where
  "find_atm_strike df spot_price =
     (let strikes = unique (map strike df);
          atm_strike = py_min (\<lambda>x. fabs (fsub x spot_price)) strikes
      in atm_strike)"

subsection \<open>Premium lookup\<close>

text \<open>
  The row mask compares strikes with \<^verbatim>\<open>==\<close> on doubles. The result \<^const>\<open>None\<close> is Python's
  \<^verbatim>\<open>None\<close>; the function has no raising path.
\<close>

definition get_option_premium ::
  "option_row list \<Rightarrow> float64 \<Rightarrow> string \<Rightarrow> float64 option" where
  "get_option_premium df strike' opt_type =
     (let row = filter (\<lambda>r. feq (strike r) strike' \<and> type r = opt_type) df
      in if row \<noteq> [] then Some (lastPrice (hd row)) else None)"

subsection \<open>The strategy\<close>

definition plot_iron_butterfly ::
  "string \<Rightarrow> string \<Rightarrow> float64 \<Rightarrow> float64 \<Rightarrow> plot_call" where
  "plot_iron_butterfly ticker_symbol expiration_date atm_strike width =
     (let premium_atm_call = Finite 5;
          premium_atm_put = Finite 5;
          premium_wing_call = Finite 2;
          premium_wing_put = Finite 2;
          ops =
            [\<lparr>op_type = ''c'', strike = atm_strike, tr_type = ''s'', op_pr = premium_atm_call\<rparr>,
             \<lparr>op_type = ''p'', strike = atm_strike, tr_type = ''s'', op_pr = premium_atm_put\<rparr>,
             \<lparr>op_type = ''c'', strike = fadd atm_strike width, tr_type = ''b'',
              op_pr = premium_wing_call\<rparr>,
             \<lparr>op_type = ''p'', strike = fsub atm_strike width, tr_type = ''b'',
              op_pr = premium_wing_put\<rparr>]
      in \<lparr>spot = atm_strike, op_list = ops\<rparr>)"

subsection \<open>The top-level flow\<close>

text \<open>
  What \<^verbatim>\<open>main\<close> reads from outside: the provider, the holiday calendar
  (\<^verbatim>\<open>holidays.CountryHoliday\<close>), today's date and \<^verbatim>\<open>strptime\<close> for the format
  \<^verbatim>\<open>%Y-%m-%d\<close>.
\<close>

record env =
  yf :: provider
  CountryHoliday :: "string \<Rightarrow> date set"
  now_date :: date
  strptime :: "string \<Rightarrow> error + date"

text \<open>The list comprehension of step 3: a string that does not parse aborts the run.\<close>

primrec valid_expirations ::
  "(string \<Rightarrow> error + date) \<Rightarrow> date \<Rightarrow> string list \<Rightarrow> error + string list" where
  "valid_expirations parse target_date [] = Inr []"
| "valid_expirations parse target_date (date # rest) =
     (case parse date of
        Inl e \<Rightarrow> Inl e
      | Inr d \<Rightarrow>
          (case valid_expirations parse target_date rest of
             Inl e \<Rightarrow> Inl e
           | Inr kept \<Rightarrow> Inr (if d \<le> target_date then date # kept else kept)))"

text \<open>\<^verbatim>\<open>series.iloc[-1]\<close>.\<close>

definition iloc_last :: "'a list \<Rightarrow> error + 'a" where
  "iloc_last xs = (if xs = [] then Inl IndexError else Inr (last xs))"

text \<open>
  The fault behaviour of \<^verbatim>\<open>f"{v:.2f}"\<close>: every double formats, \<^verbatim>\<open>None\<close> raises
  \<^verbatim>\<open>TypeError\<close>. The text produced is not modelled.
\<close>

definition format_2f :: "float64 option \<Rightarrow> error + unit" where
  "format_2f v = (case v of None \<Rightarrow> Inl TypeError | Some x \<Rightarrow> Inr ())"

text \<open>
  \<^verbatim>\<open>main\<close>: \<^const>\<open>None\<close> if the date loop never returned, \<open>Some (Inl e)\<close> if the run ended
  with the unhandled error \<open>e\<close>, \<open>Some (Inr c)\<close> if it reached the plotter with the call \<open>c\<close>.
\<close>

definition main :: "env \<Rightarrow> (error + plot_call) option" where
  "main w =
     (let ticker_symbol = ''KR'';
          today = now_date w
      in case get_nth_business_day (CountryHoliday w) today 9 ''US'' of
           None \<Rightarrow> None
         | Some (Inl e) \<Rightarrow> Some (Inl e)
         | Some (Inr target_date) \<Rightarrow> Some
            (let available_expirations = options (yf w) ticker_symbol
             in case valid_expirations (strptime w) target_date available_expirations of
                  Inl e \<Rightarrow> Inl e
                | Inr valid \<Rightarrow>
             let expiration_date = ''2025-06-20''
             in if expiration_date \<notin> set available_expirations
                then Inl (ValueError_expiration expiration_date available_expirations)
                else
             case get_option_chain (yf w) ticker_symbol expiration_date of
               Inl e \<Rightarrow> Inl e
             | Inr df \<Rightarrow>
             case iloc_last (history_close (yf w) ticker_symbol) of
               Inl e \<Rightarrow> Inl e
             | Inr spot_price \<Rightarrow>
             case find_atm_strike df spot_price of
               Inl e \<Rightarrow> Inl e
             | Inr atm_strike \<Rightarrow>
             let width = Finite 10;
                 premium_atm_call = get_option_premium df atm_strike ''call'';
                 premium_atm_put = get_option_premium df atm_strike ''put'';
                 premium_wing_call = get_option_premium df (fadd atm_strike width) ''call'';
                 premium_wing_put = get_option_premium df (fsub atm_strike width) ''put''
             in case format_2f premium_atm_call of Inl e \<Rightarrow> Inl e | Inr _ \<Rightarrow>
                case format_2f premium_atm_put of Inl e \<Rightarrow> Inl e | Inr _ \<Rightarrow>
                case format_2f premium_wing_call of Inl e \<Rightarrow> Inl e | Inr _ \<Rightarrow>
                case format_2f premium_wing_put of Inl e \<Rightarrow> Inl e | Inr _ \<Rightarrow>
                Inr (plot_iron_butterfly ticker_symbol expiration_date atm_strike width)))"

subsection \<open>Example data\<close>

text \<open>
  A provider that lists two expirations for every ticker and quotes the given strikes,
  calls at 3 and puts at 4, with a last close of 101; and an environment whose calendar
  has the single holiday 2025-07-04 (day 739436) and whose today is Monday 2025-06-02
  (day 739404).
\<close>

definition example_quotes :: "real list \<Rightarrow> real \<Rightarrow> quote list" where
  "example_quotes ks p = map (\<lambda>k. \<lparr>strike = Finite k, lastPrice = Finite p\<rparr>) ks"

definition example_provider :: "real list \<Rightarrow> provider" where
  "example_provider ks =
     \<lparr>options = (\<lambda>t. [''2025-06-20'', ''2025-07-18'']),
      option_chain = (\<lambda>t e. (example_quotes ks 3, example_quotes ks 4)),
      history_close = (\<lambda>t. [Finite 101])\<rparr>"

definition example_chain :: "real list \<Rightarrow> option_row list" where
  "example_chain ks =
     map (set_type ''call'') (example_quotes ks 3) @ map (set_type ''put'') (example_quotes ks 4)"

definition example_holidays :: "string \<Rightarrow> date set" where
  "example_holidays country = {739436}"

definition example_strptime :: "string \<Rightarrow> error + date" where
  "example_strptime s =
     (if s = ''2025-06-20'' then Inr 739422
      else if s = ''2025-07-18'' then Inr 739450
      else Inl ValueError_strptime)"

definition example_env :: "real list \<Rightarrow> env" where
  "example_env ks =
     \<lparr>yf = example_provider ks, CountryHoliday = example_holidays, now_date = 739404,
      strptime = example_strptime\<rparr>"

section \<open>Properties\<close>

subsection \<open>Counting business days\<close>

lemma business_days_between_step:
  "a < b \<Longrightarrow> business_days_between hol a b =
     (if business_day hol (a + 1) then 1 else 0) + business_days_between hol (a + 1) b"
  by (simp add: business_days_between_def upto_rec1 [of "a + 1" b])

lemma business_days_between_empty: "b \<le> a \<Longrightarrow> business_days_between hol a b = 0"
  by (simp add: business_days_between_def)

lemma business_days_between_nonneg: "0 \<le> business_days_between hol a b"
  by (simp add: business_days_between_def)

lemma business_days_between_mono:
  "b \<le> c \<Longrightarrow> business_days_between hol a b \<le> business_days_between hol a c"
proof (induction "nat (b - a)" arbitrary: a rule: less_induct)
  case less
  show ?case
  proof (cases "a < b")
    case True
    then have "nat (b - (a + 1)) < nat (b - a)" by simp
    from less.hyps [OF this less.prems] True less.prems show ?thesis
      by (simp add: business_days_between_step)
  next
    case False
    then show ?thesis
      by (simp add: business_days_between_empty business_days_between_nonneg)
  qed
qed

subsection \<open>The date loop, one iteration at a time\<close>

lemma nth_loop_done: "\<not> cnt < n \<Longrightarrow> nth_loop hol n cur cnt = Some (Inr cur)"
  by (subst nth_loop.simps) simp

lemma nth_loop_overflow:
  "cnt < n \<Longrightarrow> date_max < cur + 1 \<Longrightarrow> nth_loop hol n cur cnt = Some (Inl OverflowError)"
  by (subst nth_loop.simps) simp

lemma nth_loop_step:
  "cnt < n \<Longrightarrow> \<not> date_max < cur + 1 \<Longrightarrow>
   nth_loop hol n cur cnt =
     nth_loop hol n (cur + 1) (if business_day hol (cur + 1) then cnt + 1 else cnt)"
  by (subst nth_loop.simps) (simp add: business_day_def)

text \<open>
  Every iteration moves the current date one day closer to \<^const>\<open>date_max\<close>, so the
  distance to it is a measure for all three inductions below.
\<close>

lemma nth_loop_total: "\<exists>r. nth_loop hol n cur cnt = Some r"
proof (induction "nat (date_max - cur)" arbitrary: cur cnt rule: less_induct)
  case less
  show ?case
  proof (cases "cnt < n \<and> \<not> date_max < cur + 1")
    case True
    then have "nat (date_max - (cur + 1)) < nat (date_max - cur)" by simp
    from less [OF this] show ?thesis using True by (simp add: nth_loop_step)
  next
    case False
    then show ?thesis
      by (cases "cnt < n") (simp_all add: nth_loop_done nth_loop_overflow)
  qed
qed

lemma nth_loop_Inr:
  "nth_loop hol n cur cnt = Some (Inr d) \<Longrightarrow> cnt < n \<Longrightarrow>
   business_day hol d \<and> cur < d \<and> d \<le> date_max \<and> cnt + business_days_between hol cur d = n"
proof (induction "nat (date_max - cur)" arbitrary: cur cnt rule: less_induct)
  case less
  show ?case
  proof (cases "date_max < cur + 1")
    case True
    with less.prems show ?thesis by (simp add: nth_loop_overflow)
  next
    case False
    define cnt' where "cnt' = (if business_day hol (cur + 1) then cnt + 1 else cnt)"
    from False less.prems have run: "nth_loop hol n (cur + 1) cnt' = Some (Inr d)"
      by (simp add: nth_loop_step cnt'_def)
    from False have dec: "nat (date_max - (cur + 1)) < nat (date_max - cur)" by simp
    show ?thesis
    proof (cases "cnt' < n")
      case True
      from less.hyps [OF dec run True]
      have ih: "business_day hol d" "cur + 1 < d" "d \<le> date_max"
        "cnt' + business_days_between hol (cur + 1) d = n" by simp_all
      from ih(2) have "cur < d" by simp
      then show ?thesis using ih
        by (simp add: business_days_between_step cnt'_def split: if_splits)
    next
      case stop: False
      with run have d: "d = cur + 1" by (simp add: nth_loop_done)
      from stop less.prems(2) have bd: "business_day hol (cur + 1)" and n: "n = cnt + 1"
        by (auto simp: cnt'_def split: if_splits)
      show ?thesis using False bd n
        by (simp add: d business_days_between_step business_days_between_empty)
    qed
  qed
qed

lemma nth_loop_returns:
  "cnt < n \<Longrightarrow> e \<le> date_max \<Longrightarrow> n - cnt \<le> business_days_between hol cur e \<Longrightarrow>
   \<exists>d. nth_loop hol n cur cnt = Some (Inr d) \<and> d \<le> e"
proof (induction "nat (date_max - cur)" arbitrary: cur cnt rule: less_induct)
  case less
  have lt: "cur < e"
  proof (rule ccontr)
    assume "\<not> cur < e"
    then have "business_days_between hol cur e = 0" by (simp add: business_days_between_empty)
    with less.prems show False by simp
  qed
  with less.prems have nov: "\<not> date_max < cur + 1" by simp
  define cnt' where "cnt' = (if business_day hol (cur + 1) then cnt + 1 else cnt)"
  have step: "nth_loop hol n cur cnt = nth_loop hol n (cur + 1) cnt'"
    using less.prems(1) nov by (simp add: nth_loop_step cnt'_def)
  from nov have dec: "nat (date_max - (cur + 1)) < nat (date_max - cur)" by simp
  show ?case
  proof (cases "cnt' < n")
    case True
    have "n - cnt' \<le> business_days_between hol (cur + 1) e"
      using less.prems(3) lt by (simp add: business_days_between_step cnt'_def split: if_splits)
    from less.hyps [OF dec True less.prems(2) this] show ?thesis by (simp add: step)
  next
    case False
    then show ?thesis using lt by (simp add: step nth_loop_done)
  qed
qed

subsection \<open>Rounding to a double\<close>

lemma pow2_powi: "pow2 e = 2 powi e"
  by (simp add: pow2_def power_int_def power_one_over inverse_eq_divide)

lemma pow2_pos: "0 < pow2 e"
  by (simp add: pow2_powi)

lemma pow2_add: "pow2 (a + b) = pow2 a * pow2 b"
  by (simp add: pow2_powi power_int_add)

lemma pow2_succ: "pow2 (e + 1) = 2 * pow2 e"
  by (simp add: pow2_powi power_int_add)

lemma pow2_numeral: "pow2 (numeral n) = 2 ^ numeral n"
  by (simp add: pow2_def)

lemma pow2_pred: "pow2 (e - 1) = pow2 e / 2"
  using pow2_succ [of "e - 1"] by simp

lemma pow2_less_iff: "pow2 a < pow2 b \<longleftrightarrow> a < b"
proof
  assume "pow2 a < pow2 b"
  show "a < b"
  proof (rule ccontr)
    assume "\<not> a < b"
    then have "b \<le> a" by simp
    then have "pow2 b \<le> pow2 a"
      unfolding pow2_powi by (intro power_int_increasing) simp_all
    with \<open>pow2 a < pow2 b\<close> show False by simp
  qed
next
  assume "a < b"
  then show "pow2 a < pow2 b"
    unfolding pow2_powi by (intro power_int_strict_increasing) simp_all
qed

lemma pow2_nat: "0 \<le> e \<Longrightarrow> pow2 e = of_int (2 ^ nat e)"
  by (simp add: pow2_def)

text \<open>\<^const>\<open>exponent\<close> finds the binary exponent of a positive number.\<close>

lemma exponent_bounds:
  "0 < x \<Longrightarrow> pow2 (exponent x) \<le> x \<and> x < pow2 (exponent x + 1)"
proof (induction x rule: exponent.induct)
  case (1 x)
  consider "2 \<le> x" | "x < 1" | "1 \<le> x" "x < 2" by linarith
  then show ?case
  proof cases
    case 1
    define k where "k = exponent (x / 2)"
    from 1 "1.prems" have e: "exponent x = k + 1"
      unfolding k_def by (subst exponent.simps) simp
    from "1.IH"(1) 1 "1.prems"
    have ih: "pow2 k \<le> x / 2 \<and> x / 2 < pow2 (k + 1)" by (simp add: k_def)
    have "pow2 (k + 1) = 2 * pow2 k" "pow2 (k + 1 + 1) = 2 * pow2 (k + 1)"
      by (rule pow2_succ)+
    with ih show ?thesis unfolding e by linarith
  next
    case 2
    define k where "k = exponent (2 * x)"
    from 2 "1.prems" have e: "exponent x = k - 1"
      unfolding k_def by (subst exponent.simps) simp
    from "1.IH"(2) 2 "1.prems"
    have ih: "pow2 k \<le> 2 * x \<and> 2 * x < pow2 (k + 1)" by (simp add: k_def)
    have "pow2 (k + 1) = 2 * pow2 k" "pow2 (k - 1 + 1) = 2 * pow2 (k - 1)"
      by (rule pow2_succ)+
    moreover have "pow2 (k - 1 + 1) = pow2 k" by simp
    ultimately show ?thesis using ih unfolding e by linarith
  next
    case 3
    with "1.prems" have e: "exponent x = 0"
      by (subst exponent.simps) simp
    from 3 show ?thesis by (simp add: e pow2_def)
  qed
qed

text \<open>
  Rounding leaves every double unchanged: a number \<open>m \<sqdot> 2\<^sup>e\<close> with a significand \<open>m\<close> of at
  most 53 bits and \<open>e\<close> in the exponent range, subnormal numbers included.
\<close>

lemma round_half_even_of_int: "round_half_even (of_int n) = n"
  by (simp add: round_half_even_def)

lemma fround_exact:
  assumes x: "x = of_int m * pow2 e" and m: "\<bar>m\<bar> < 2 ^ 53"
    and lo: "- 1074 \<le> e" and hi: "e \<le> 971"
  shows "fround x = Finite x"
proof (cases "x = 0")
  case True
  then show ?thesis by (simp add: fround_def)
next
  case False
  define a where "a = \<bar>x\<bar>"
  define k where "k = exponent a"
  define e' where "e' = max (k - 52) (- 1074)"
  have a: "a = of_int \<bar>m\<bar> * pow2 e"
    using pow2_pos [of e] by (simp add: a_def x abs_mult)
  from False have apos: "0 < a" by (simp add: a_def)
  from exponent_bounds [OF apos] have kb: "pow2 k \<le> a" by (simp add: k_def)
  have "of_int \<bar>m\<bar> < (2::real) ^ 53" using m by (metis of_int_less_iff of_int_numeral of_int_power)
  then have "a < 2 ^ 53 * pow2 e" using pow2_pos [of e] by (simp add: a)
  also have "\<dots> = pow2 (53 + e)" by (simp add: pow2_add pow2_numeral)
  finally have alt: "a < pow2 (53 + e)" .
  with kb have "pow2 k < pow2 (53 + e)" by simp
  then have "k < 53 + e" by (simp add: pow2_less_iff)
  with lo have le: "e' \<le> e" by (simp add: e'_def)
  define n where "n = \<bar>m\<bar> * 2 ^ nat (e - e')"
  have "pow2 e = pow2 (e - e') * pow2 e'" by (simp flip: pow2_add)
  also have "pow2 (e - e') = of_int (2 ^ nat (e - e'))" using le by (simp add: pow2_nat)
  finally have an: "a = of_int n * pow2 e'" by (simp add: a n_def)
  then have q: "a / pow2 e' = of_int n" using pow2_pos [of e'] by simp
  have "pow2 (53 + e) \<le> pow2 1024"
    using hi pow2_less_iff [of 1024 "53 + e"] by (simp add: not_less [symmetric])
  with alt have small: "a < 2 ^ 1024" by (simp add: pow2_numeral)
  have "fround x = Finite (if x < 0 then - a else a)"
    using False small
    by (simp add: fround_def Let_def a_def [symmetric] k_def [symmetric] e'_def [symmetric] q
        round_half_even_of_int an [symmetric])
  then show ?thesis by (simp add: a_def)
qed

subsection \<open>Comparing doubles\<close>

text \<open>
  \<^verbatim>\<open><\<close> on doubles is a strict order away from NaN, and NaN is below and above nothing.
\<close>

lemma flt_irrefl: "\<not> flt a a"
  by (cases a) simp_all

lemma flt_trans: "flt a b \<Longrightarrow> flt b c \<Longrightarrow> flt a c"
  by (cases a; cases b; cases c) simp_all

lemma flt_imp_fle: "flt a b \<Longrightarrow> fle a b"
  by (cases a; cases b) simp_all

lemma flt_not_fle: "flt a b \<Longrightarrow> \<not> fle b a"
  by (cases a; cases b) simp_all

lemma flt_not_NaN: "flt a b \<Longrightarrow> a \<noteq> NaN \<and> b \<noteq> NaN"
  by (cases a; cases b) simp_all

lemma fle_refl: "a \<noteq> NaN \<Longrightarrow> fle a a"
  by (cases a) simp_all

lemma not_fle_NaN: "\<not> fle a NaN"
  by (cases a) simp_all

lemma flt_above: "flt m b \<Longrightarrow> \<not> flt x b \<Longrightarrow> flt m x \<or> x = NaN"
  by (cases m; cases b; cases x) simp_all

lemma not_flt_fle: "\<not> flt a b \<Longrightarrow> a \<noteq> NaN \<Longrightarrow> b \<noteq> NaN \<Longrightarrow> fle b a"
  by (cases a; cases b) simp_all

text \<open>
  Unfolding these evaluates the arithmetic of doubles at concrete numbers.
\<close>

lemmas double_eval = fround_def round_half_even_def pow2_def Let_def exponent.simps

subsection \<open>Distinct values and the first minimum\<close>

lemma set_unique_from: "set (unique_from seen xs) = set xs - set seen"
  by (induction xs arbitrary: seen) auto

lemma distinct_unique_from: "distinct (unique_from seen xs)"
  by (induction xs arbitrary: seen) (auto simp: set_unique_from)

lemma set_unique: "set (unique xs) = set xs"
  by (simp add: unique_def set_unique_from)

lemma distinct_unique: "distinct (unique xs)"
  by (simp add: unique_def distinct_unique_from)

lemma unique_eq_Nil: "unique xs = [] \<longleftrightarrow> xs = []"
  using set_unique [of xs] by (metis set_empty)

text \<open>
  The element \<^const>\<open>min_from\<close> returns is either the initial best or has a strictly smaller
  key; and it splits the scanned sequence: every element before it has a strictly larger key
  or a NaN key, and no element after it has a strictly smaller key.
\<close>

lemma min_from_best:
  "min_from key b xs = b \<or> flt (key (min_from key b xs)) (key b)"
proof (induction xs arbitrary: b)
  case Nil
  show ?case by simp
next
  case (Cons x xs)
  show ?case
  proof (cases "flt (key x) (key b)")
    case True
    with Cons [of x] show ?thesis by (auto intro: flt_trans)
  next
    case False
    with Cons [of b] show ?thesis by simp
  qed
qed

lemma min_from_first:
  "\<exists>pre post. b # xs = pre @ min_from key b xs # post
     \<and> (\<forall>y\<in>set pre. flt (key (min_from key b xs)) (key y) \<or> key y = NaN)
     \<and> (\<forall>y\<in>set post. \<not> flt (key y) (key (min_from key b xs)))"
proof (induction xs arbitrary: b)
  case Nil
  have "[b] = [] @ b # []" by simp
  then show ?case by (metis empty_iff empty_set min_from.simps(1))
next
  case (Cons x xs)
  define b' where "b' = (if flt (key x) (key b) then x else b)"
  define m where "m = min_from key b' xs"
  have m: "min_from key b (x # xs) = m" by (simp add: m_def b'_def)
  from Cons [of b'] obtain pre post where
    dec: "b' # xs = pre @ m # post"
    and pre: "\<forall>y\<in>set pre. flt (key m) (key y) \<or> key y = NaN"
    and post: "\<forall>y\<in>set post. \<not> flt (key y) (key m)"
    unfolding m_def by blast
  from min_from_best [of key b' xs] have best: "m = b' \<or> flt (key m) (key b')"
    by (simp add: m_def)
  show ?case
  proof (cases "flt (key x) (key b)")
    case True
    then have b': "b' = x" by (simp add: b'_def)
    from best True have mb: "flt (key m) (key b)"
      unfolding b' by (auto intro: flt_trans)
    show ?thesis
    proof (cases pre)
      case Nil
      with dec have "b # x # xs = [b] @ m # post" by (simp add: b')
      moreover have "\<forall>y\<in>set [b]. flt (key m) (key y) \<or> key y = NaN" using mb by simp
      ultimately show ?thesis using post unfolding m by blast
    next
      case (Cons p pre')
      with dec have "b # x # xs = (b # pre) @ m # post" by (simp add: b')
      moreover have "\<forall>y\<in>set (b # pre). flt (key m) (key y) \<or> key y = NaN"
        using pre mb by simp
      ultimately show ?thesis using post unfolding m by blast
    qed
  next
    case False
    then have b': "b' = b" by (simp add: b'_def)
    have none: "\<forall>y\<in>set (b # xs). \<not> flt (key y) (key m)"
    proof
      fix y assume "y \<in> set (b # xs)"
      then have "y \<in> set pre \<or> y = m \<or> y \<in> set post"
        using dec by (simp add: b') (metis Un_iff insert_iff list.simps(15) set_append)
      then show "\<not> flt (key y) (key m)"
        using pre post flt_irrefl [of "key m"] flt_not_fle [of "key m" "key y"]
          flt_imp_fle [of "key y" "key m"] flt_not_NaN [of "key y" "key m"] by auto
    qed
    show ?thesis
    proof (cases "flt (key m) (key b)")
      case stay: False
      with best have mb: "m = b" by (simp add: b')
      have "b # x # xs = [] @ m # (x # xs)" by (simp add: mb)
      moreover have "\<forall>y\<in>set (x # xs). \<not> flt (key y) (key m)"
        using none False by (simp add: mb)
      ultimately show ?thesis unfolding m by (metis empty_iff empty_set)
    next
      case lt: True
      from flt_above [OF lt False] have x: "flt (key m) (key x) \<or> key x = NaN" .
      from lt have "m \<noteq> b" using flt_irrefl [of "key b"] by auto
      with dec obtain pre' where pre': "pre = b # pre'" and xs: "xs = pre' @ m # post"
        by (cases pre) (simp_all add: b')
      have "b # x # xs = (b # x # pre') @ m # post" by (simp add: xs)
      moreover have "\<forall>y\<in>set (b # x # pre'). flt (key m) (key y) \<or> key y = NaN"
        using pre pre' x by simp
      ultimately show ?thesis using post unfolding m by blast
    qed
  qed
qed

lemma py_min_first:
  assumes "xs \<noteq> []"
  shows "\<exists>m pre post. py_min key xs = Inr m \<and> xs = pre @ m # post
     \<and> (\<forall>y\<in>set pre. flt (key m) (key y) \<or> key y = NaN)
     \<and> (\<forall>y\<in>set post. \<not> flt (key y) (key m))"
proof -
  from assms obtain b rest where xs: "xs = b # rest" by (cases xs) auto
  from min_from_first [of b rest key] show ?thesis
    by (simp add: xs py_min_def)
qed

subsection \<open>Filtering a table\<close>

lemma filter_first:
  assumes "\<exists>x\<in>set xs. P x"
  shows "\<exists>pre r post. xs = pre @ r # post \<and> (\<forall>x\<in>set pre. \<not> P x) \<and> P r
           \<and> filter P xs \<noteq> [] \<and> hd (filter P xs) = r"
proof -
  from split_list_first_prop [OF assms] obtain pre r post where
    xs: "xs = pre @ r # post" and r: "P r" and pre: "\<forall>y\<in>set pre. \<not> P y" by blast
  from pre have "filter P pre = []" by (simp add: filter_empty_conv)
  with r have "filter P xs = r # filter P post" by (simp add: xs)
  with xs r pre show ?thesis by auto
qed

subsection \<open>What a run goes through\<close>

lemma main_Inr:
  assumes "main w = Some (Inr c)"
  shows "\<exists>df spot_price atm_strike.
           get_option_chain (yf w) ''KR'' ''2025-06-20'' = Inr df
         \<and> iloc_last (history_close (yf w) ''KR'') = Inr spot_price
         \<and> find_atm_strike df spot_price = Inr atm_strike
         \<and> c = plot_iron_butterfly ''KR'' ''2025-06-20'' atm_strike (Finite 10)"
  using assms unfolding main_def Let_def
  by (simp split: option.splits sum.splits if_splits)

lemma main_reaches_plotter:
  assumes "get_nth_business_day (CountryHoliday w) (now_date w) 9 ''US'' = Some (Inr target_date)"
    and "valid_expirations (strptime w) target_date (options (yf w) ''KR'') = Inr valid"
    and "get_option_chain (yf w) ''KR'' ''2025-06-20'' = Inr df"
    and "iloc_last (history_close (yf w) ''KR'') = Inr spot_price"
    and "find_atm_strike df spot_price = Inr atm_strike"
    and "get_option_premium df atm_strike ''call'' = Some p1"
    and "get_option_premium df atm_strike ''put'' = Some p2"
    and "get_option_premium df (fadd atm_strike (Finite 10)) ''call'' = Some p3"
    and "get_option_premium df (fsub atm_strike (Finite 10)) ''put'' = Some p4"
  shows "main w = Some (Inr (plot_iron_butterfly ''KR'' ''2025-06-20'' atm_strike (Finite 10)))"
proof -
  from assms(3) have "''2025-06-20'' \<in> set (options (yf w) ''KR'')"
    by (auto simp: get_option_chain_def Let_def split: if_splits)
  with assms show ?thesis
    unfolding main_def Let_def by (simp add: format_2f_def)
qed

subsection \<open>The example data, evaluated\<close>

lemma example_target_date:
  "get_nth_business_day example_holidays 739404 9 ''US'' = Some (Inr 739415)"
  by (simp add: example_holidays_def get_nth_business_day_def nth_loop.simps weekday_def
      date_max_def)

lemma example_fround:
  "fround (- 11) = Finite (- 11)"
  "fround (- 6) = Finite (- 6)"
  "fround (- 1) = Finite (- 1)"
  "fround 4 = Finite 4"
  "fround 9 = Finite 9"
  "fround (- 10) = Finite (- 10)"
  "fround (- 5) = Finite (- 5)"
  "fround 5 = Finite 5"
  "fround 10 = Finite 10"
  "fround 90 = Finite 90"
  "fround 110 = Finite 110"
  by (simp_all add: double_eval)

lemma example_atm_five:
  "find_atm_strike (example_chain [90, 95, 100, 105, 110]) (Finite 101) = Inr (Finite 100)"
  by (simp add: example_chain_def example_quotes_def set_type_def find_atm_strike_def
      unique_def py_min_def example_fround)

lemma example_atm_three:
  "find_atm_strike (example_chain [95, 100, 105]) (Finite 101) = Inr (Finite 100)"
  by (simp add: example_chain_def example_quotes_def set_type_def find_atm_strike_def
      unique_def py_min_def example_fround)

section \<open>The claims\<close>

text \<open>
  C1, as stated, with exact distances: the doubles nearest to 0.03 and 199.97 as strikes and
  the spot price 100.0. Both computed distances round to the same double, so the first
  strike, 0.03, is returned; its exact distance to 100 is larger than that of 199.97.
\<close>

theorem find_atm_strike_exact_counterexample:
  "fround (3 / 100) = Finite (1080863910568919 / 36028797018963968)
   \<and> fround (19997 / 100) = Finite (7035818886603735 / 35184372088832)
   \<and> fabs (fsub (Finite (1080863910568919 / 36028797018963968)) (Finite 100)) =
       fabs (fsub (Finite (7035818886603735 / 35184372088832)) (Finite 100))
   \<and> find_atm_strike
        (example_chain [1080863910568919 / 36028797018963968, 7035818886603735 / 35184372088832])
        (Finite 100) = Inr (Finite (1080863910568919 / 36028797018963968))
   \<and> \<not> (\<bar>1080863910568919 / 36028797018963968 - 100\<bar>
          \<le> \<bar>7035818886603735 / 35184372088832 - (100::real)\<bar>)"
proof -
  have a: "fabs (fsub (Finite (1080863910568919 / 36028797018963968)) (Finite 100)) =
      Finite (3517381677720535 / 35184372088832)"
    by (simp add: double_eval)
  have b: "fabs (fsub (Finite (7035818886603735 / 35184372088832)) (Finite 100)) =
      Finite (3517381677720535 / 35184372088832)"
    by (simp add: double_eval)
  have r1: "fround (3 / 100) = Finite (1080863910568919 / 36028797018963968)"
    by (simp add: double_eval)
  have r2: "fround (19997 / 100) = Finite (7035818886603735 / 35184372088832)"
    by (simp add: double_eval)
  have f: "find_atm_strike
        (example_chain [1080863910568919 / 36028797018963968, 7035818886603735 / 35184372088832])
        (Finite 100) = Inr (Finite (1080863910568919 / 36028797018963968))"
    using a b
    by (simp add: example_chain_def example_quotes_def set_type_def find_atm_strike_def
        unique_def py_min_def)
  have e: "\<not> (\<bar>1080863910568919 / 36028797018963968 - 100\<bar>
          \<le> \<bar>7035818886603735 / 35184372088832 - (100::real)\<bar>)"
    by simp
  from r1 r2 a b f e show ?thesis by simp
qed

text \<open>
  C1, amended. For a non-empty chain table and any spot price, \<^const>\<open>find_atm_strike\<close>
  returns a strike \<open>s\<close> that is one of the distinct strikes of the table (the duplicate-free
  sequence has exactly the strikes of the table), and no row's strike has a strictly smaller
  computed distance \<^verbatim>\<open>abs(strike - spot_price)\<close>, the distances being the doubles the code
  compares. If none of the computed distances is NaN, the computed distance of \<open>s\<close> is at most
  that of every row's strike.
\<close>

theorem find_atm_strike_closest:
  assumes "df \<noteq> []"
  shows "\<exists>s. find_atm_strike df spot_price = Inr s
           \<and> s \<in> set (unique (map strike df))
           \<and> distinct (unique (map strike df))
           \<and> set (unique (map strike df)) = strike ` set df
           \<and> (\<forall>r\<in>set df. \<not> flt (fabs (fsub (strike r) spot_price)) (fabs (fsub s spot_price)))
           \<and> ((\<forall>r\<in>set df. fabs (fsub (strike r) spot_price) \<noteq> NaN) \<longrightarrow>
                (\<forall>r\<in>set df. fle (fabs (fsub s spot_price)) (fabs (fsub (strike r) spot_price))))"
proof -
  let ?us = "unique (map strike df)"
  let ?key = "\<lambda>x. fabs (fsub x spot_price)"
  from assms have "?us \<noteq> []" by (simp add: unique_eq_Nil)
  from py_min_first [OF this, of ?key] obtain m pre post where
    res: "py_min ?key ?us = Inr m" and dec: "?us = pre @ m # post"
    and pre: "\<forall>y\<in>set pre. flt (?key m) (?key y) \<or> ?key y = NaN"
    and post: "\<forall>y\<in>set post. \<not> flt (?key y) (?key m)"
    by blast
  have sets: "set ?us = strike ` set df" by (simp add: set_unique)
  have mem: "m \<in> set ?us" by (subst dec) simp
  have all: "\<not> flt (?key y) (?key m)" if "y \<in> set ?us" for y
  proof -
    from that have "y \<in> set pre \<or> y = m \<or> y \<in> set post" by (subst (asm) dec) auto
    then show ?thesis
      using pre post flt_irrefl [of "?key m"] flt_not_fle [of "?key m" "?key y"]
        flt_imp_fle [of "?key y" "?key m"] flt_not_NaN [of "?key y" "?key m"] by auto
  qed
  have none: "\<forall>r\<in>set df. \<not> flt (?key (strike r)) (?key m)"
    using all sets by auto
  have le: "\<forall>r\<in>set df. fle (?key m) (?key (strike r))"
    if nn: "\<forall>r\<in>set df. ?key (strike r) \<noteq> NaN"
  proof
    fix r assume r: "r \<in> set df"
    from mem sets obtain r' where "r' \<in> set df" "m = strike r'" by auto
    with nn have "?key m \<noteq> NaN" by auto
    moreover from nn r have "?key (strike r) \<noteq> NaN" by auto
    moreover from none r have "\<not> flt (?key (strike r)) (?key m)" by auto
    ultimately show "fle (?key m) (?key (strike r))" by (simp add: not_flt_fle)
  qed
  have "find_atm_strike df spot_price = Inr m" using res by (simp add: find_atm_strike_def)
  with mem sets none le distinct_unique [of "map strike df"] show ?thesis by blast
qed

theorem find_atm_strike_closest_witness:
  "example_chain [90, 95, 100, 105, 110] \<noteq> []
   \<and> find_atm_strike (example_chain [90, 95, 100, 105, 110]) (Finite 101) = Inr (Finite 100)
   \<and> unique (map strike (example_chain [90, 95, 100, 105, 110])) =
       [Finite 90, Finite 95, Finite 100, Finite 105, Finite 110]
   \<and> find_atm_strike (example_chain [90, 95, 100, 105, 110]) NaN = Inr (Finite 90)
   \<and> (\<exists>s. find_atm_strike (example_chain [90, 95, 100, 105, 110]) (Finite 101) = Inr s
        \<and> (\<forall>r\<in>set (example_chain [90, 95, 100, 105, 110]).
              fle (fabs (fsub s (Finite 101))) (fabs (fsub (strike r) (Finite 101)))))"
proof -
  let ?df = "example_chain [90, 95, 100, 105, 110]"
  have ne: "?df \<noteq> []" by (simp add: example_chain_def example_quotes_def)
  have u: "unique (map strike ?df) = [Finite 90, Finite 95, Finite 100, Finite 105, Finite 110]"
    by (simp add: example_chain_def example_quotes_def set_type_def unique_def)
  have n: "find_atm_strike ?df NaN = Inr (Finite 90)"
    by (simp add: find_atm_strike_def u py_min_def)
  have nn: "\<forall>r\<in>set ?df. fabs (fsub (strike r) (Finite 101)) \<noteq> NaN"
    by (simp add: example_chain_def example_quotes_def set_type_def example_fround)
  from find_atm_strike_closest [OF ne, of "Finite 101"] nn ne u n example_atm_five
  show ?thesis by (simp only: simp_thms) blast
qed

text \<open>
  C2, as stated, at the count 0: started on Saturday 2025-06-21 (day 739423) with
  \<open>n = 0\<close>, the loop body never runs and the start date itself is returned, which is not a
  weekday.
\<close>

theorem get_nth_business_day_zero_counterexample:
  "get_nth_business_day example_holidays 739423 0 ''US'' = Some (Inr 739423)
   \<and> \<not> weekday 739423 < 5"
  by (simp add: get_nth_business_day_def nth_loop_done weekday_def)

text \<open>
  C2, amended. For a count \<open>n \<le> 0\<close> the start date is returned unchanged. For a count
  \<open>n \<ge> 1\<close> such that at least \<open>n\<close> business days lie after the start date and up to some
  date \<open>e\<close> of the calendar, the function returns a date \<open>d\<close> after the start date and not
  after \<open>e\<close>, which is a weekday, is not a holiday, and is the day on which the number of
  business days passed since the start date (exclusive) reaches exactly \<open>n\<close>.
\<close>

theorem get_nth_business_day_nth:
  "(n \<le> 0 \<longrightarrow> get_nth_business_day cal start_date n country = Some (Inr start_date))
   \<and> (1 \<le> n \<and> e \<le> date_max \<and> n \<le> business_days_between (cal country) start_date e \<longrightarrow>
        (\<exists>d. get_nth_business_day cal start_date n country = Some (Inr d)
           \<and> start_date < d \<and> d \<le> e
           \<and> weekday d < 5 \<and> d \<notin> cal country
           \<and> business_days_between (cal country) start_date d = n))"
proof (intro conjI impI)
  assume "n \<le> 0"
  then show "get_nth_business_day cal start_date n country = Some (Inr start_date)"
    by (simp add: get_nth_business_day_def nth_loop_done)
next
  assume h: "1 \<le> n \<and> e \<le> date_max \<and> n \<le> business_days_between (cal country) start_date e"
  then have pos: "0 < n" by simp
  from h have "n - 0 \<le> business_days_between (cal country) start_date e" by simp
  from nth_loop_returns [OF pos _ this] h obtain d where
    run: "nth_loop (cal country) n start_date 0 = Some (Inr d)" and de: "d \<le> e" by blast
  from nth_loop_Inr [OF run pos] de run
  show "\<exists>d. get_nth_business_day cal start_date n country = Some (Inr d)
           \<and> start_date < d \<and> d \<le> e
           \<and> weekday d < 5 \<and> d \<notin> cal country
           \<and> business_days_between (cal country) start_date d = n"
    by (simp add: get_nth_business_day_def business_day_def)
qed

theorem get_nth_business_day_nth_witness:
  "get_nth_business_day example_holidays 739423 0 ''US'' = Some (Inr 739423)
   \<and> (1::int) \<le> 9 \<and> 739437 \<le> date_max
   \<and> 9 \<le> business_days_between (example_holidays ''US'') 739422 739437
   \<and> (\<exists>d. get_nth_business_day example_holidays 739422 9 ''US'' = Some (Inr d)
           \<and> 739422 < d \<and> d \<le> 739437
           \<and> weekday d < 5 \<and> d \<notin> example_holidays ''US''
           \<and> business_days_between (example_holidays ''US'') 739422 d = 9)
   \<and> get_nth_business_day example_holidays 739422 9 ''US'' = Some (Inr 739435)"
proof -
  have c: "9 \<le> business_days_between (example_holidays ''US'') 739422 739437"
    by (simp add: business_days_between_def business_day_def weekday_def example_holidays_def
        upto_rec1)
  have m: "739437 \<le> date_max" by (simp add: date_max_def)
  have v: "get_nth_business_day example_holidays 739422 9 ''US'' = Some (Inr 739435)"
    by (simp add: get_nth_business_day_def nth_loop.simps weekday_def example_holidays_def
        date_max_def)
  from get_nth_business_day_nth [of 0 example_holidays 739423 "''US''"]
    get_nth_business_day_nth [of 9 example_holidays 739422 "''US''" 739437] c m v
  show ?thesis by simp
qed

text \<open>
  C3. \<^const>\<open>get_option_chain\<close> raises exactly when the requested expiration is not among
  the provider's expirations for the ticker; the error raised is then the
  unavailable-expiration error, carrying the requested date and the full list of available
  expirations; when the date is available the chain returned is the provider's call rows
  followed by its put rows, each tagged with its type.
\<close>

theorem get_option_chain_unavailable:
  "(expiration_date \<notin> set (options prov ticker_symbol) \<longrightarrow>
      get_option_chain prov ticker_symbol expiration_date =
        Inl (ValueError_expiration expiration_date (options prov ticker_symbol)))
   \<and> (expiration_date \<in> set (options prov ticker_symbol) \<longrightarrow>
      get_option_chain prov ticker_symbol expiration_date =
        Inr (map (set_type ''call'') (fst (option_chain prov ticker_symbol expiration_date))
             @ map (set_type ''put'') (snd (option_chain prov ticker_symbol expiration_date))))
   \<and> ((\<exists>e. get_option_chain prov ticker_symbol expiration_date = Inl e) \<longleftrightarrow>
      expiration_date \<notin> set (options prov ticker_symbol))"
  by (simp add: get_option_chain_def Let_def split: prod.splits)

theorem get_option_chain_unavailable_witness:
  "''2099-01-01'' \<notin> set (options (example_provider [90, 100]) ''ABC'')
   \<and> get_option_chain (example_provider [90, 100]) ''ABC'' ''2099-01-01'' =
       Inl (ValueError_expiration ''2099-01-01'' [''2025-06-20'', ''2025-07-18''])
   \<and> ''2025-06-20'' \<in> set (options (example_provider [90, 100]) ''ABC'')
   \<and> get_option_chain (example_provider [90, 100]) ''ABC'' ''2025-06-20'' =
       Inr [\<lparr>strike = Finite 90, lastPrice = Finite 3, type = ''call''\<rparr>,
            \<lparr>strike = Finite 100, lastPrice = Finite 3, type = ''call''\<rparr>,
            \<lparr>strike = Finite 90, lastPrice = Finite 4, type = ''put''\<rparr>,
            \<lparr>strike = Finite 100, lastPrice = Finite 4, type = ''put''\<rparr>]"
  using get_option_chain_unavailable [of "''2099-01-01''" "example_provider [90, 100]" "''ABC''"]
    get_option_chain_unavailable [of "''2025-06-20''" "example_provider [90, 100]" "''ABC''"]
  by (simp add: example_provider_def example_quotes_def set_type_def)

text \<open>
  C4. If some row of the table has a strike equal to the requested one and the requested
  option type, \<^const>\<open>get_option_premium\<close> returns the \<^verbatim>\<open>lastPrice\<close> of the first such row (no
  row before it matches); if no row matches it returns \<^const>\<open>None\<close>. The function has no
  error result, so neither case raises.
\<close>

theorem get_option_premium_first_match:
  "((\<exists>r\<in>set df. feq (strike r) k \<and> type r = opt_type) \<longrightarrow>
      (\<exists>pre r post. df = pre @ r # post
         \<and> (\<forall>x\<in>set pre. \<not> (feq (strike x) k \<and> type x = opt_type))
         \<and> feq (strike r) k \<and> type r = opt_type
         \<and> get_option_premium df k opt_type = Some (lastPrice r)))
   \<and> ((\<forall>r\<in>set df. \<not> (feq (strike r) k \<and> type r = opt_type)) \<longrightarrow>
      get_option_premium df k opt_type = None)"
proof (intro conjI impI)
  assume "\<exists>r\<in>set df. feq (strike r) k \<and> type r = opt_type"
  from filter_first [OF this] show "\<exists>pre r post. df = pre @ r # post
         \<and> (\<forall>x\<in>set pre. \<not> (feq (strike x) k \<and> type x = opt_type))
         \<and> feq (strike r) k \<and> type r = opt_type
         \<and> get_option_premium df k opt_type = Some (lastPrice r)"
    unfolding get_option_premium_def Let_def by fastforce
next
  assume "\<forall>r\<in>set df. \<not> (feq (strike r) k \<and> type r = opt_type)"
  then have "filter (\<lambda>r. feq (strike r) k \<and> type r = opt_type) df = []"
    by (simp add: filter_empty_conv)
  then show "get_option_premium df k opt_type = None"
    by (simp add: get_option_premium_def)
qed

theorem get_option_premium_first_match_witness:
  "(\<exists>r\<in>set (example_chain [90, 100, 100]). feq (strike r) (Finite 100) \<and> type r = ''put'')
   \<and> get_option_premium (example_chain [90, 100, 100]) (Finite 100) ''put'' = Some (Finite 4)
   \<and> \<not> (\<exists>r\<in>set (example_chain [90, 100, 100]). feq (strike r) (Finite 110) \<and> type r = ''put'')
   \<and> get_option_premium (example_chain [90, 100, 100]) (Finite 110) ''put'' = None"
  using get_option_premium_first_match [of "example_chain [90, 100, 100]" "Finite 100" "''put''"]
    get_option_premium_first_match [of "example_chain [90, 100, 100]" "Finite 110" "''put''"]
  by (simp add: example_chain_def example_quotes_def set_type_def get_option_premium_def)

text \<open>
  C5. For a center strike \<open>K\<close> and width \<open>w\<close>, the legs handed to the plotter are exactly
  four, in this order: sell call at \<open>K\<close>, sell put at \<open>K\<close>, buy call at \<open>K + w\<close>, buy put at
  \<open>K - w\<close>, the sum and the difference being those of doubles.
\<close>

theorem plot_iron_butterfly_legs:
  "map (\<lambda>l. (tr_type l, op_type l, leg.strike l))
     (op_list (plot_iron_butterfly ticker_symbol expiration_date atm_strike width)) =
   [(''s'', ''c'', atm_strike), (''s'', ''p'', atm_strike),
    (''b'', ''c'', fadd atm_strike width), (''b'', ''p'', fsub atm_strike width)]"
  by (simp add: plot_iron_butterfly_def)

theorem plot_iron_butterfly_legs_witness:
  "map (\<lambda>l. (tr_type l, op_type l, leg.strike l))
     (op_list (plot_iron_butterfly ''KR'' ''2025-06-20'' (Finite 100) (Finite 10))) =
   [(''s'', ''c'', Finite 100), (''s'', ''p'', Finite 100),
    (''b'', ''c'', Finite 110), (''b'', ''p'', Finite 90)]"
  using plot_iron_butterfly_legs [of "''KR''" "''2025-06-20''" "Finite 100" "Finite 10"]
  by (simp add: example_fround)

text \<open>
  C6. The premiums on the four legs are the constants 5, 5, 2, 2 and the spot argument of
  the plotter call is the center strike, whatever the ticker and expiration. In a run of
  \<^const>\<open>main\<close> that reaches the plotter, the call carries these constants, and its spot
  argument is the strike that \<^const>\<open>find_atm_strike\<close> selected, not the last close read from
  the provider.
\<close>

theorem plot_iron_butterfly_placeholder_premiums:
  "map op_pr (op_list (plot_iron_butterfly ticker_symbol expiration_date atm_strike width)) =
     [Finite 5, Finite 5, Finite 2, Finite 2]
   \<and> spot (plot_iron_butterfly ticker_symbol expiration_date atm_strike width) = atm_strike
   \<and> (main w = Some (Inr c) \<longrightarrow>
        map op_pr (op_list c) = [Finite 5, Finite 5, Finite 2, Finite 2]
      \<and> (\<exists>df spot_price.
            get_option_chain (yf w) ''KR'' ''2025-06-20'' = Inr df
          \<and> iloc_last (history_close (yf w) ''KR'') = Inr spot_price
          \<and> find_atm_strike df spot_price = Inr (spot c)))"
proof (intro conjI impI)
  assume "main w = Some (Inr c)"
  from main_Inr [OF this] obtain df spot_price atm_strike where
    *: "get_option_chain (yf w) ''KR'' ''2025-06-20'' = Inr df"
       "iloc_last (history_close (yf w) ''KR'') = Inr spot_price"
       "find_atm_strike df spot_price = Inr atm_strike"
       "c = plot_iron_butterfly ''KR'' ''2025-06-20'' atm_strike (Finite 10)" by blast
  show "map op_pr (op_list c) = [Finite 5, Finite 5, Finite 2, Finite 2]"
    by (simp add: *(4) plot_iron_butterfly_def)
  have "spot c = atm_strike" by (simp add: *(4) plot_iron_butterfly_def)
  with *(1-3) show "\<exists>df spot_price.
            get_option_chain (yf w) ''KR'' ''2025-06-20'' = Inr df
          \<and> iloc_last (history_close (yf w) ''KR'') = Inr spot_price
          \<and> find_atm_strike df spot_price = Inr (spot c)" by auto
qed (simp_all add: plot_iron_butterfly_def)

theorem plot_iron_butterfly_placeholder_premiums_witness:
  "main (example_env [90, 95, 100, 105, 110]) =
     Some (Inr (plot_iron_butterfly ''KR'' ''2025-06-20'' (Finite 100) (Finite 10)))
   \<and> get_option_premium (example_chain [90, 95, 100, 105, 110]) (Finite 100) ''call'' =
       Some (Finite 3)
   \<and> get_option_premium (example_chain [90, 95, 100, 105, 110])
        (fadd (Finite 100) (Finite 10)) ''call'' = Some (Finite 3)
   \<and> iloc_last (history_close (yf (example_env [90, 95, 100, 105, 110])) ''KR'') =
       Inr (Finite 101)
   \<and> map op_pr (op_list (plot_iron_butterfly ''KR'' ''2025-06-20'' (Finite 100) (Finite 10))) =
       [Finite 5, Finite 5, Finite 2, Finite 2]
   \<and> spot (plot_iron_butterfly ''KR'' ''2025-06-20'' (Finite 100) (Finite 10)) = Finite 100"
proof -
  let ?w = "example_env [90, 95, 100, 105, 110]"
  let ?df = "example_chain [90, 95, 100, 105, 110]"
  have h1: "get_nth_business_day (CountryHoliday ?w) (now_date ?w) 9 ''US'' = Some (Inr 739415)"
    by (simp add: example_env_def example_target_date)
  have h2: "valid_expirations (strptime ?w) 739415 (options (yf ?w) ''KR'') = Inr []"
    by (simp add: example_env_def example_provider_def example_strptime_def)
  have h3: "get_option_chain (yf ?w) ''KR'' ''2025-06-20'' = Inr ?df"
    by (simp add: example_env_def example_provider_def example_chain_def get_option_chain_def)
  have s: "iloc_last (history_close (yf ?w) ''KR'') = Inr (Finite 101)"
    by (simp add: example_env_def example_provider_def iloc_last_def)
  have p1: "get_option_premium ?df (Finite 100) ''call'' = Some (Finite 3)"
    by (simp add: example_chain_def example_quotes_def set_type_def get_option_premium_def)
  have p2: "get_option_premium ?df (Finite 100) ''put'' = Some (Finite 4)"
    by (simp add: example_chain_def example_quotes_def set_type_def get_option_premium_def)
  have p3: "get_option_premium ?df (fadd (Finite 100) (Finite 10)) ''call'' = Some (Finite 3)"
    by (simp add: example_fround example_chain_def example_quotes_def set_type_def
        get_option_premium_def)
  have p4: "get_option_premium ?df (fsub (Finite 100) (Finite 10)) ''put'' = Some (Finite 4)"
    by (simp add: example_fround example_chain_def example_quotes_def set_type_def
        get_option_premium_def)
  have m: "main ?w = Some (Inr (plot_iron_butterfly ''KR'' ''2025-06-20'' (Finite 100) (Finite 10)))"
    by (rule main_reaches_plotter [OF h1 h2 h3 s example_atm_five p1 p2 p3 p4])
  from plot_iron_butterfly_placeholder_premiums
    [of "''KR''" "''2025-06-20''" "Finite 100" "Finite 10" ?w
      "plot_iron_butterfly ''KR'' ''2025-06-20'' (Finite 100) (Finite 10)"]
    m p1 p3 s
  show ?thesis by simp
qed

text \<open>
  C7. In a run of \<^const>\<open>main\<close> that gets as far as the premium lookups, if any of the four
  lookups returns \<^const>\<open>None\<close>, the run ends with the unhandled \<^verbatim>\<open>TypeError\<close> of the
  formatting step and the plotter is not called. The lookup itself returned a value, not an
  error.
\<close>

theorem main_missing_premium_faults:
  assumes "get_nth_business_day (CountryHoliday w) (now_date w) 9 ''US'' = Some (Inr target_date)"
    and "valid_expirations (strptime w) target_date (options (yf w) ''KR'') = Inr valid"
    and "get_option_chain (yf w) ''KR'' ''2025-06-20'' = Inr df"
    and "iloc_last (history_close (yf w) ''KR'') = Inr spot_price"
    and "find_atm_strike df spot_price = Inr atm_strike"
    and "get_option_premium df atm_strike ''call'' = None
       \<or> get_option_premium df atm_strike ''put'' = None
       \<or> get_option_premium df (fadd atm_strike (Finite 10)) ''call'' = None
       \<or> get_option_premium df (fsub atm_strike (Finite 10)) ''put'' = None"
  shows "main w = Some (Inl TypeError)"
proof -
  from assms(3) have "''2025-06-20'' \<in> set (options (yf w) ''KR'')"
    by (auto simp: get_option_chain_def Let_def split: if_splits)
  with assms show ?thesis
    unfolding main_def Let_def
    by (auto simp: format_2f_def split: option.splits sum.splits)
qed

theorem main_missing_premium_faults_witness:
  "get_nth_business_day (CountryHoliday (example_env [95, 100, 105]))
      (now_date (example_env [95, 100, 105])) 9 ''US'' = Some (Inr 739415)
   \<and> valid_expirations (strptime (example_env [95, 100, 105])) 739415
        (options (yf (example_env [95, 100, 105])) ''KR'') = Inr []
   \<and> get_option_chain (yf (example_env [95, 100, 105])) ''KR'' ''2025-06-20'' =
        Inr (example_chain [95, 100, 105])
   \<and> iloc_last (history_close (yf (example_env [95, 100, 105])) ''KR'') = Inr (Finite 101)
   \<and> find_atm_strike (example_chain [95, 100, 105]) (Finite 101) = Inr (Finite 100)
   \<and> get_option_premium (example_chain [95, 100, 105]) (Finite 100) ''call'' = Some (Finite 3)
   \<and> get_option_premium (example_chain [95, 100, 105]) (fadd (Finite 100) (Finite 10)) ''call'' =
       None
   \<and> main (example_env [95, 100, 105]) = Some (Inl TypeError)"
proof -
  let ?w = "example_env [95, 100, 105]"
  let ?df = "example_chain [95, 100, 105]"
  have h1: "get_nth_business_day (CountryHoliday ?w) (now_date ?w) 9 ''US'' = Some (Inr 739415)"
    by (simp add: example_env_def example_target_date)
  have h2: "valid_expirations (strptime ?w) 739415 (options (yf ?w) ''KR'') = Inr []"
    by (simp add: example_env_def example_provider_def example_strptime_def)
  have h3: "get_option_chain (yf ?w) ''KR'' ''2025-06-20'' = Inr ?df"
    by (simp add: example_env_def example_provider_def example_chain_def get_option_chain_def)
  have h4: "iloc_last (history_close (yf ?w) ''KR'') = Inr (Finite 101)"
    by (simp add: example_env_def example_provider_def iloc_last_def)
  have h6: "get_option_premium ?df (Finite 100) ''call'' = Some (Finite 3)"
    by (simp add: example_chain_def example_quotes_def set_type_def get_option_premium_def)
  have h7: "get_option_premium ?df (fadd (Finite 100) (Finite 10)) ''call'' = None"
    by (simp add: example_fround example_chain_def example_quotes_def set_type_def
        get_option_premium_def)
  from h7 have h8: "get_option_premium ?df (Finite 100) ''call'' = None
       \<or> get_option_premium ?df (Finite 100) ''put'' = None
       \<or> get_option_premium ?df (fadd (Finite 100) (Finite 10)) ''call'' = None
       \<or> get_option_premium ?df (fsub (Finite 100) (Finite 10)) ''put'' = None" by blast
  from main_missing_premium_faults [OF h1 h2 h3 h4 example_atm_three h8]
    h1 h2 h3 h4 example_atm_three h6 h7
  show ?thesis by blast
qed

text \<open>
  C8. When the expiration is available, the returned table consists of the provider's call
  rows, each tagged \<^verbatim>\<open>call\<close>, followed by the provider's put rows, each tagged
  \<^verbatim>\<open>put\<close>, in the provider's order and with strike and last price unchanged.
\<close>

theorem get_option_chain_tagged:
  assumes "expiration_date \<in> set (options prov ticker_symbol)"
  shows "\<exists>df calls puts.
           get_option_chain prov ticker_symbol expiration_date = Inr df
         \<and> option_chain prov ticker_symbol expiration_date = (calls, puts)
         \<and> length df = length calls + length puts
         \<and> (\<forall>i<length calls. type (df ! i) = ''call''
               \<and> strike (df ! i) = strike (calls ! i)
               \<and> lastPrice (df ! i) = lastPrice (calls ! i))
         \<and> (\<forall>j<length puts. type (df ! (length calls + j)) = ''put''
               \<and> strike (df ! (length calls + j)) = strike (puts ! j)
               \<and> lastPrice (df ! (length calls + j)) = lastPrice (puts ! j))"
proof -
  obtain calls puts where oc: "option_chain prov ticker_symbol expiration_date = (calls, puts)"
    by (cases "option_chain prov ticker_symbol expiration_date")
  let ?df = "map (set_type ''call'') calls @ map (set_type ''put'') puts"
  have res: "get_option_chain prov ticker_symbol expiration_date = Inr ?df"
    using assms oc by (simp add: get_option_chain_def)
  have c: "\<forall>i<length calls. ?df ! i = set_type ''call'' (calls ! i)"
    by (simp add: nth_append)
  have p: "\<forall>j<length puts. ?df ! (length calls + j) = set_type ''put'' (puts ! j)"
    by (simp add: nth_append)
  have "length ?df = length calls + length puts" by simp
  with res oc c p show ?thesis by (simp add: set_type_def)
qed

theorem get_option_chain_tagged_witness:
  "''2025-06-20'' \<in> set (options (example_provider [90, 100]) ''ABC'')
   \<and> get_option_chain (example_provider [90, 100]) ''ABC'' ''2025-06-20'' =
       Inr [\<lparr>strike = Finite 90, lastPrice = Finite 3, type = ''call''\<rparr>,
            \<lparr>strike = Finite 100, lastPrice = Finite 3, type = ''call''\<rparr>,
            \<lparr>strike = Finite 90, lastPrice = Finite 4, type = ''put''\<rparr>,
            \<lparr>strike = Finite 100, lastPrice = Finite 4, type = ''put''\<rparr>]
   \<and> (\<exists>df calls puts.
           get_option_chain (example_provider [90, 100]) ''ABC'' ''2025-06-20'' = Inr df
         \<and> option_chain (example_provider [90, 100]) ''ABC'' ''2025-06-20'' = (calls, puts)
         \<and> length df = length calls + length puts
         \<and> (\<forall>i<length calls. type (df ! i) = ''call''
               \<and> strike (df ! i) = strike (calls ! i)
               \<and> lastPrice (df ! i) = lastPrice (calls ! i))
         \<and> (\<forall>j<length puts. type (df ! (length calls + j)) = ''put''
               \<and> strike (df ! (length calls + j)) = strike (puts ! j)
               \<and> lastPrice (df ! (length calls + j)) = lastPrice (puts ! j)))"
proof -
  have h: "''2025-06-20'' \<in> set (options (example_provider [90, 100]) ''ABC'')"
    by (simp add: example_provider_def)
  have v: "get_option_chain (example_provider [90, 100]) ''ABC'' ''2025-06-20'' =
       Inr [\<lparr>strike = Finite 90, lastPrice = Finite 3, type = ''call''\<rparr>,
            \<lparr>strike = Finite 100, lastPrice = Finite 3, type = ''call''\<rparr>,
            \<lparr>strike = Finite 90, lastPrice = Finite 4, type = ''put''\<rparr>,
            \<lparr>strike = Finite 100, lastPrice = Finite 4, type = ''put''\<rparr>]"
    by (simp add: get_option_chain_def example_provider_def example_quotes_def set_type_def)
  from h v get_option_chain_tagged [OF h] show ?thesis by blast
qed

text \<open>
  C9, as stated, with exact distances: the strikes \<open>1/4 - 2\<^sup>-\<^sup>5\<^sup>5\<close>, \<open>1/4\<close> and \<open>199.75\<close>, all
  doubles, and the spot price 100.0. The strikes \<open>1/4\<close> and \<open>199.75\<close> are at the same exact
  distance 99.75, and the first strike is farther; but its computed distance rounds to 99.75
  as well, and it is the one returned.
\<close>

theorem find_atm_strike_tie_counterexample:
  "fround (1 / 4 - 1 / 2 ^ 55) = Finite (1 / 4 - 1 / 2 ^ 55)
   \<and> find_atm_strike (example_chain [1 / 4 - 1 / 2 ^ 55, 1 / 4, 799 / 4]) (Finite 100) =
       Inr (Finite (1 / 4 - 1 / 2 ^ 55))
   \<and> \<bar>1 / 4 - 100\<bar> = \<bar>799 / 4 - (100::real)\<bar>
   \<and> \<bar>1 / 4 - (100::real)\<bar> < \<bar>(1 / 4 - 1 / 2 ^ 55) - 100\<bar>
   \<and> fabs (fsub (Finite (1 / 4 - 1 / 2 ^ 55)) (Finite 100)) = Finite (399 / 4)
   \<and> fabs (fsub (Finite (1 / 4)) (Finite 100)) = Finite (399 / 4)
   \<and> fabs (fsub (Finite (799 / 4)) (Finite 100)) = Finite (399 / 4)"
proof -
  have r: "fround (1 / 4 - 1 / 2 ^ 55) = Finite (1 / 4 - 1 / 2 ^ 55)"
    by (simp add: double_eval)
  have a: "fabs (fsub (Finite (1 / 4 - 1 / 2 ^ 55)) (Finite 100)) = Finite (399 / 4)"
    by (simp add: double_eval)
  have b: "fabs (fsub (Finite (1 / 4)) (Finite 100)) = Finite (399 / 4)"
    by (simp add: double_eval)
  have c: "fabs (fsub (Finite (799 / 4)) (Finite 100)) = Finite (399 / 4)"
    by (simp add: double_eval)
  have f: "find_atm_strike (example_chain [1 / 4 - 1 / 2 ^ 55, 1 / 4, 799 / 4]) (Finite 100) =
       Inr (Finite (1 / 4 - 1 / 2 ^ 55))"
    using a b c
    by (simp add: example_chain_def example_quotes_def set_type_def find_atm_strike_def
        unique_def py_min_def)
  have e: "\<bar>1 / 4 - 100\<bar> = \<bar>799 / 4 - (100::real)\<bar>"
    "\<bar>1 / 4 - (100::real)\<bar> < \<bar>(1 / 4 - 1 / 2 ^ 55) - 100\<bar>"
    by simp_all
  from r f e a b c show ?thesis by (simp only: simp_thms)
qed

text \<open>
  C9, amended. The strike returned is the first minimum of the duplicate-free strike
  sequence with respect to the computed distances \<^verbatim>\<open>abs(strike - spot_price)\<close>, the doubles the
  code compares: every strike before it in that sequence has a strictly larger computed
  distance (or a NaN one), and no strike after it has a strictly smaller one. So of several
  distinct strikes whose computed distances are equal and smallest, the one that comes first
  is returned.
\<close>

theorem find_atm_strike_first_minimum:
  assumes "df \<noteq> []"
  shows "\<exists>s pre post. find_atm_strike df spot_price = Inr s
           \<and> unique (map strike df) = pre @ s # post
           \<and> (\<forall>x\<in>set pre. flt (fabs (fsub s spot_price)) (fabs (fsub x spot_price))
                 \<or> fabs (fsub x spot_price) = NaN)
           \<and> (\<forall>x\<in>set post. \<not> flt (fabs (fsub x spot_price)) (fabs (fsub s spot_price)))"
proof -
  from assms have "unique (map strike df) \<noteq> []" by (simp add: unique_eq_Nil)
  from py_min_first [OF this, of "\<lambda>x. fabs (fsub x spot_price)"] show ?thesis
    by (simp add: find_atm_strike_def)
qed

theorem find_atm_strike_first_minimum_witness:
  "example_chain [90, 105, 95, 110] \<noteq> []
   \<and> unique (map strike (example_chain [90, 105, 95, 110])) =
       [Finite 90, Finite 105, Finite 95, Finite 110]
   \<and> fabs (fsub (Finite 105) (Finite 100)) = fabs (fsub (Finite 95) (Finite 100))
   \<and> find_atm_strike (example_chain [90, 105, 95, 110]) (Finite 100) = Inr (Finite 105)
   \<and> (\<exists>s pre post. find_atm_strike (example_chain [90, 105, 95, 110]) (Finite 100) = Inr s
        \<and> unique (map strike (example_chain [90, 105, 95, 110])) = pre @ s # post
        \<and> (\<forall>x\<in>set pre. flt (fabs (fsub s (Finite 100))) (fabs (fsub x (Finite 100)))
              \<or> fabs (fsub x (Finite 100)) = NaN)
        \<and> (\<forall>x\<in>set post. \<not> flt (fabs (fsub x (Finite 100))) (fabs (fsub s (Finite 100)))))"
proof -
  let ?df = "example_chain [90, 105, 95, 110]"
  have ne: "?df \<noteq> []" by (simp add: example_chain_def example_quotes_def)
  have u: "unique (map strike ?df) = [Finite 90, Finite 105, Finite 95, Finite 110]"
    by (simp add: example_chain_def example_quotes_def set_type_def unique_def)
  have v: "find_atm_strike ?df (Finite 100) = Inr (Finite 105)"
    by (simp add: find_atm_strike_def u py_min_def example_fround)
  have t: "fabs (fsub (Finite 105) (Finite 100)) = fabs (fsub (Finite 95) (Finite 100))"
    by (simp add: example_fround)
  from find_atm_strike_first_minimum [OF ne, of "Finite 100"] ne u v t show ?thesis by blast
qed

text \<open>
  C10. The loop of \<^const>\<open>get_nth_business_day\<close> terminates for every holiday calendar, start
  date and count: the only guard of the loop is the count, and a run that does not reach the
  count ends when the date leaves the calendar.
\<close>

theorem get_nth_business_day_terminates:
  "\<exists>r. get_nth_business_day cal start_date n country = Some r"
  by (simp add: get_nth_business_day_def nth_loop_total)

theorem get_nth_business_day_terminates_witness:
  "get_nth_business_day example_holidays 3652050 9 ''US'' = Some (Inl OverflowError)
   \<and> (\<exists>r. get_nth_business_day example_holidays 3652050 9 ''US'' = Some r)"
proof -
  have "get_nth_business_day example_holidays 3652050 9 ''US'' = Some (Inl OverflowError)"
    by (simp add: get_nth_business_day_def nth_loop.simps weekday_def example_holidays_def
        date_max_def)
  with get_nth_business_day_terminates [of example_holidays 3652050 9 "''US''"]
  show ?thesis by simp
qed

text \<open>
  It returns a date, rather than raising, exactly when the count is not positive or that
  many business days remain in the calendar after the start date.
\<close>

lemma get_nth_business_day_returns_iff:
  "(\<exists>d. get_nth_business_day cal start_date n country = Some (Inr d)) \<longleftrightarrow>
     n \<le> 0 \<or> n \<le> business_days_between (cal country) start_date date_max"
proof (cases "n \<le> 0")
  case True
  then show ?thesis by (simp add: get_nth_business_day_def nth_loop_done)
next
  case False
  then have pos: "0 < n" by simp
  show ?thesis
  proof
    assume "\<exists>d. get_nth_business_day cal start_date n country = Some (Inr d)"
    then obtain d where run: "nth_loop (cal country) n start_date 0 = Some (Inr d)"
      by (auto simp: get_nth_business_day_def)
    from nth_loop_Inr [OF run pos]
    have "d \<le> date_max" "business_days_between (cal country) start_date d = n" by simp_all
    with business_days_between_mono [of d date_max "cal country" start_date]
    show "n \<le> 0 \<or> n \<le> business_days_between (cal country) start_date date_max" by simp
  next
    assume "n \<le> 0 \<or> n \<le> business_days_between (cal country) start_date date_max"
    with False have "n - 0 \<le> business_days_between (cal country) start_date date_max" by simp
    from nth_loop_returns [OF pos order_refl this]
    show "\<exists>d. get_nth_business_day cal start_date n country = Some (Inr d)"
      by (auto simp: get_nth_business_day_def)
  qed
qed

end
